theory Spec2Isabelle
  imports Main "HOL-Library.Sublist"
begin

section \<open>Strings\<close>

text \<open>
  A Python \<^verbatim>\<open>str\<close> is modelled as a \<^typ>\<open>string\<close>, a list of \<^typ>\<open>char\<close>.  A
  \<^typ>\<open>char\<close> stands for the code point with the same number, so the model covers the
  strings whose code points are below 256.  On these code points \<^verbatim>\<open>str.isspace\<close>, the
  class \<^verbatim>\<open>\s\<close> of the module \<^verbatim>\<open>re\<close> and \<^verbatim>\<open>str.strip\<close> agree on the same twelve
  whitespace characters, and \<^verbatim>\<open>str.lower\<close> moves \<^verbatim>\<open>A-Z\<close> and the capital letters
  of the range \<^verbatim>\<open>0xC0-0xDE\<close> (without \<^verbatim>\<open>0xD7\<close>) up by 32.
\<close>

definition isspace :: "char \<Rightarrow> bool" where
  "isspace c =
     (let n = (of_char c :: nat)
      in (9 \<le> n \<and> n \<le> 13) \<or> (28 \<le> n \<and> n \<le> 32) \<or> n = 133 \<or> n = 160)"

definition lower_char :: "char \<Rightarrow> char" where
  "lower_char c =
     (let n = (of_char c :: nat)
      in if (65 \<le> n \<and> n \<le> 90) \<or> (192 \<le> n \<and> n \<le> 214) \<or> (216 \<le> n \<and> n \<le> 222)
         then char_of (n + 32) else c)"

definition lower :: "string \<Rightarrow> string" where
  "lower s = map lower_char s"

definition lstrip :: "string \<Rightarrow> string" where
  "lstrip s = dropWhile isspace s"

definition rstrip :: "string \<Rightarrow> string" where
  "rstrip s = rev (dropWhile isspace (rev s))"

definition strip :: "string \<Rightarrow> string" where
  "strip s = lstrip (rstrip s)"

text \<open>
  \<^verbatim>\<open>re.sub(r'[...]+', ' ', s)\<close> for a character class \<open>P\<close>: scanning from the left, every
  maximal run of characters of the class is replaced by one space.
\<close>

function re_sub_runs :: "(char \<Rightarrow> bool) \<Rightarrow> string \<Rightarrow> string" where
  "re_sub_runs P [] = []"
| "re_sub_runs P (c # cs) =
     (if P c then CHR '' '' # re_sub_runs P (dropWhile P cs) else c # re_sub_runs P cs)"
  by pat_completeness auto
termination
  by (relation "measure (\<lambda>(P, s). length s)") (auto simp: length_dropWhile_le less_Suc_eq_le)

text \<open>The class \<^verbatim>\<open>[._\-]\<close> of \<^verbatim>\<open>normalize_name\<close>.\<close>

definition is_sep :: "char \<Rightarrow> bool" where
  "is_sep c = (c = CHR ''.'' \<or> c = CHR ''_'' \<or> c = CHR ''-'')"

text \<open>
  \<^verbatim>\<open>
  def normalize_name(name: str) -> str:
      s = re.sub(r'[._\-]+', ' ', name)
      s = re.sub(r'\s+', ' ', s)
      return s.strip().lower()
  \<close>
\<close>

definition normalize_name :: "string \<Rightarrow> string" where
  "normalize_name name =
     (let s = re_sub_runs is_sep name;
          s = re_sub_runs isspace s
      in lower (strip s))"



section \<open>Paths\<close>

text \<open>
  \<^verbatim>\<open>os.path\<close> is modelled as \<^verbatim>\<open>posixpath\<close>: the separator is \<^verbatim>\<open>/\<close>, there is no
  alternative separator and no drive.  \<^verbatim>\<open>str.rfind\<close> returns \<open>-1\<close> when the character
  does not occur.
\<close>

definition rfind :: "string \<Rightarrow> char \<Rightarrow> int" where
  "rfind s c =
     (if c \<in> set s then int (length s) - 1 - int (length (takeWhile (\<lambda>x. x \<noteq> c) (rev s)))
      else - 1)"

text \<open>
  \<^verbatim>\<open>
  def basename(p):
      i = p.rfind(sep) + 1
      return p[i:]
  \<close>
\<close>

definition basename :: "string \<Rightarrow> string" where
  "basename p = (let i = rfind p CHR ''/'' + 1 in drop (nat i) p)"

text \<open>
  \<^verbatim>\<open>
  def _splitext(p, sep, altsep, extsep):
      sepIndex = p.rfind(sep)
      dotIndex = p.rfind(extsep)
      if dotIndex > sepIndex:
          filenameIndex = sepIndex + 1
          while filenameIndex < dotIndex:
              if p[filenameIndex:filenameIndex+1] != extsep:
                  return p[:dotIndex], p[dotIndex:]
              filenameIndex += 1
      return p, p[:0]
  \<close>
  The loop looks for a character other than the dot in \<^verbatim>\<open>p[sepIndex+1:dotIndex]\<close>.
\<close>

definition splitext :: "string \<Rightarrow> string \<times> string" where
  "splitext p =
     (let sepIndex = rfind p CHR ''/'';
          dotIndex = rfind p CHR ''.''
      in if dotIndex > sepIndex \<and>
            (\<exists>c \<in> set (drop (nat (sepIndex + 1)) (take (nat dotIndex) p)). c \<noteq> CHR ''.'')
         then (take (nat dotIndex) p, drop (nat dotIndex) p)
         else (p, []))"

section \<open>Patterns\<close>

text \<open>
  The regular expression engine is not part of the program.  It is a parameter of the
  model: \<open>re rx text\<close> stands for
  \<^verbatim>\<open>re.search(rx, text, flags=re.IGNORECASE | re.UNICODE)\<close>, which returns a match
  object, returns \<^verbatim>\<open>None\<close>, or raises \<^verbatim>\<open>re.error\<close> because \<open>rx\<close> does not compile.
  Exceptions for an exhausted limit of the interpreter (memory, recursion depth, a
  repetition count beyond the engine's maximum) are not modelled, here as everywhere else.
\<close>

datatype search_result = Found | Not_found | Re_error

type_synonym regex_engine = "string \<Rightarrow> string \<Rightarrow> search_result"

text \<open>\<^verbatim>\<open>s.split(sep)\<close> for a separator of one character.\<close>

fun split_char :: "char \<Rightarrow> string \<Rightarrow> string list" where
  "split_char sep [] = [[]]"
| "split_char sep (c # cs) =
     (if c = sep then [] # split_char sep cs
      else (case split_char sep cs of [] \<Rightarrow> [[c]] | p # ps \<Rightarrow> (c # p) # ps))"

text \<open>
  \<^verbatim>\<open>re.split(r'\s*\|\s*', s)\<close>: every bar is a delimiter, together with the whitespace
  on both of its sides.  So the pieces are those of \<^verbatim>\<open>s.split('|')\<close>, where a piece loses
  its trailing whitespace when a bar follows it and its leading whitespace when a bar
  precedes it.
\<close>

definition re_split_bar :: "string \<Rightarrow> string list" where
  "re_split_bar s =
     (case split_char CHR ''|'' s of
        [] \<Rightarrow> []
      | [p] \<Rightarrow> [p]
      | p # ps \<Rightarrow> rstrip p # map strip (butlast ps) @ [lstrip (last ps)])"

text \<open>\<^verbatim>\<open>max(xs, default=d)\<close> on natural numbers.\<close>

fun py_max :: "nat list \<Rightarrow> nat \<Rightarrow> nat" where
  "py_max [] d = d"
| "py_max (x # xs) d = fold max xs x"

record pattern =
  raw :: string
  alternatives :: "string list"
  priority :: nat

text \<open>
  \<^verbatim>\<open>
  def __init__(self, raw: str):
      self.raw = raw.strip()
      self.alternatives = [alt.strip() for alt in re.split(r'\s*\|\s*', self.raw) if alt.strip()]
      self.priority = max(len(alt) for alt in self.alternatives) if self.alternatives else len(self.raw)
  \<close>
\<close>

definition Pattern :: "string \<Rightarrow> pattern" where
  "Pattern raw0 =
     (let raw' = strip raw0;
          alts = [strip alt. alt \<leftarrow> re_split_bar raw', strip alt \<noteq> []]
      in \<lparr> raw = raw',
           alternatives = alts,
           priority = (if alts \<noteq> [] then py_max (map length alts) 0 else length raw') \<rparr>)"

text \<open>
  The tokens of a wildcard alternative:
  \<^verbatim>\<open>[normalize_name(t) for t in alt.split('*') if t.strip()]\<close>.
\<close>

definition wildcard_tokens :: "string \<Rightarrow> string list" where
  "wildcard_tokens alt = [normalize_name t. t \<leftarrow> split_char CHR ''*'' alt, strip t \<noteq> []]"

text \<open>
  \<^verbatim>\<open>
  def matches(self, text_norm: str) -> bool:
      for alt in self.alternatives:
          if alt.startswith('regex:'):
              pattern = alt[len('regex:'):]
              try:
                  if re.search(pattern, text_norm, flags=re.IGNORECASE | re.UNICODE):
                      return True
              except re.error:
                  logging.debug("Invalid regex pattern: %s", pattern)
          else:
              if '*' in alt:
                  tokens = [normalize_name(t) for t in alt.split('*') if t.strip()]
                  if all(tok in text_norm for tok in tokens):
                      return True
              else:
                  tok = normalize_name(alt)
                  if tok in text_norm:
                      return True
      return False
  \<close>
  The loop over the alternatives is \<open>matches_alts\<close>; \<^verbatim>\<open>tok in text_norm\<close> is
  \<^const>\<open>sublist\<close>.
\<close>

fun matches_alts :: "regex_engine \<Rightarrow> string list \<Rightarrow> string \<Rightarrow> bool" where
  "matches_alts re [] text_norm = False"
| "matches_alts re (alt # alts) text_norm =
     (if prefix ''regex:'' alt then
        (case re (drop (length ''regex:'') alt) text_norm of
           Found \<Rightarrow> True
         | Not_found \<Rightarrow> matches_alts re alts text_norm
         | Re_error \<Rightarrow> matches_alts re alts text_norm)
      else if CHR ''*'' \<in> set alt then
        (if \<forall>tok \<in> set (wildcard_tokens alt). sublist tok text_norm then True
         else matches_alts re alts text_norm)
      else
        (if sublist (normalize_name alt) text_norm then True
         else matches_alts re alts text_norm))"

definition matches :: "regex_engine \<Rightarrow> pattern \<Rightarrow> string \<Rightarrow> bool" where
  "matches re p text_norm = matches_alts re (alternatives p) text_norm"

section \<open>Groups\<close>

text \<open>
  A group owns its subgroups, so the tree is a datatype.  The field \<^verbatim>\<open>parent\<close> of the
  class is a back reference that only \<^verbatim>\<open>full_name\<close> reads; it is not part of the value.
\<close>

datatype group =
  Group (name: string) (include_patterns: "pattern list") (exclude_patterns: "pattern list")
        (subgroups: "group list")

section \<open>Matching\<close>

text \<open>
  \<^verbatim>\<open>
  def file_matches_group_name(file_path: str, group: Group) -> bool:
      if not group.include_patterns:
          return False
      base = os.path.basename(file_path)
      name_no_ext, _ = os.path.splitext(base)
      normalized = normalize_name(name_no_ext)
      if not any(p.matches(normalized) for p in group.include_patterns):
          return False
      if any(p.matches(normalized) for p in group.exclude_patterns):
          return False
      return True
  \<close>
\<close>

definition normalized_name :: "string \<Rightarrow> string" where
  "normalized_name file_path =
     (let base = basename file_path;
          name_no_ext = fst (splitext base)
      in normalize_name name_no_ext)"

definition file_matches_group_name :: "regex_engine \<Rightarrow> string \<Rightarrow> group \<Rightarrow> bool" where
  "file_matches_group_name re file_path g =
     (if include_patterns g = [] then False
      else let normalized = normalized_name file_path
           in if \<not> (\<exists>p \<in> set (include_patterns g). matches re p normalized) then False
              else if \<exists>p \<in> set (exclude_patterns g). matches re p normalized then False
              else True)"

text \<open>
  \<^verbatim>\<open>
  def match_file_recursively(file_path: str, group: Group) -> List[Group]:
      matches = []
      for sub in group.subgroups:
          matches.extend(match_file_recursively(file_path, sub))
      if not matches and file_matches_group_name(file_path, group):
          matches.append(group)
      return matches
  \<close>
\<close>

fun match_file_recursively :: "regex_engine \<Rightarrow> string \<Rightarrow> group \<Rightarrow> group list" where
  "match_file_recursively re file_path (Group n inc exc subs) =
     (let ms = concat (map (match_file_recursively re file_path) subs)
      in if ms = [] \<and> file_matches_group_name re file_path (Group n inc exc subs)
         then ms @ [Group n inc exc subs]
         else ms)"

text \<open>The matches of one file over the forest, as the loop of \<^verbatim>\<open>process_all\<close> collects them.\<close>

definition match_forest :: "regex_engine \<Rightarrow> string \<Rightarrow> group list \<Rightarrow> group list" where
  "match_forest re src_path top_groups =
     concat (map (match_file_recursively re src_path) top_groups)"

section \<open>Placement\<close>

datatype py_error = ValueError | TypeError | IndexError

text \<open>
  The placement decision of \<^verbatim>\<open>process_all\<close> for one file:
  \<^verbatim>\<open>
  if not matches:
      continue
  matches_sorted = sorted(matches, key=lambda g: -max((p.priority for p in g.include_patterns), default=0))
  primary = matches_sorted[0]
  ...
  for g in matches_sorted[1:]:
  \<close>
  \<^verbatim>\<open>sorted\<close> is a stable sort, as \<^const>\<open>sort_key\<close> is.  The result is \<open>None\<close> when the
  file is skipped, and else the primary group with the groups that receive a link.
\<close>

definition group_priority :: "group \<Rightarrow> nat" where
  "group_priority g = py_max (map priority (include_patterns g)) 0"

definition placement_key :: "group \<Rightarrow> int" where
  "placement_key g = - int (group_priority g)"

definition plan :: "group list \<Rightarrow> py_error + (group \<times> group list) option" where
  "plan ms =
     (if ms = [] then Inr None
      else (case sort_key placement_key ms of
              [] \<Rightarrow> Inl IndexError
            | primary # secondaries \<Rightarrow> Inr (Some (primary, secondaries))))"

section \<open>Configuration\<close>
























lemma size_list_member: "x \<in> set xs \<Longrightarrow> f x < size_list f xs"
  by (induction xs) auto










section \<open>Examples\<close>

text \<open>
  The data of the examples: an engine that rejects the expression \<^verbatim>\<open>[a\<close> and finds nothing
  else, groups after the demonstration configuration of \<^verbatim>\<open>main\<close>, and two parsed
  configurations, the second with a node without a name, and a third in which a named
  node has a null \<^verbatim>\<open>include\<close> field (what YAML gives for a key without a value).
\<close>

definition example_engine :: regex_engine where
  "example_engine rx text = (if rx = ''[a'' then Re_error else Not_found)"

definition ex_python :: group where
  "ex_python = Group ''Python'' [Pattern ''Python''] [] []"

definition ex_it :: group where
  "ex_it = Group ''IT'' [Pattern ''Basics'']  []
             [ex_python, Group ''Programming'' [Pattern ''Prog*Lang''] [] []]"

definition ex_office :: group where
  "ex_office = Group ''Office'' [Pattern ''Office''] [Pattern ''Linux''] []"

definition ex_kids :: group where
  "ex_kids = Group ''Kids'' [Pattern ''kids''] [] []"

definition ex_biology :: group where
  "ex_biology = Group ''Biology'' [Pattern ''kids''] [] []"

text \<open>Three groups with two include patterns each, after the demonstration
  configuration; the greatest priority is that of the first pattern in one of them only.\<close>

definition ex_php :: group where
  "ex_php = Group ''PHP'' [Pattern ''PHP*MySQL'', Pattern ''PHP''] [] []"

definition ex_js :: group where
  "ex_js = Group ''JavaScript'' [Pattern ''JS'', Pattern ''JavaScript''] [] []"

definition ex_ts :: group where
  "ex_ts = Group ''TypeScript'' [Pattern ''TypeScript'', Pattern ''TS''] [] []"

definition ex_science :: group where
  "ex_science = Group ''Science'' [] [] [ex_biology]"






section \<open>Normalisation is idempotent\<close>






















section \<open>Patterns: the claims\<close>

lemma php_pattern: "Pattern ''PHP*MySQL|PHP'' =
    \<lparr> raw = ''PHP*MySQL|PHP'', alternatives = [''PHP*MySQL'', ''PHP''], priority = 9 \<rparr>"
  by code_simp

lemma php_tokens: "wildcard_tokens ''PHP*MySQL'' = [''php'', ''mysql'']"
  by code_simp

lemma php_sub: "sublist ''php'' ''php and mysql tutorial'' \<and> sublist ''mysql'' ''php and mysql tutorial''"
  by code_simp

lemma not_regex_php: "\<not> prefix ''regex:'' ''PHP*MySQL''"
  by code_simp

text \<open>
  C4.  The pattern of the rule text \<^verbatim>\<open>PHP*MySQL|PHP\<close> has the alternatives
  \<^verbatim>\<open>PHP*MySQL\<close> and \<^verbatim>\<open>PHP\<close>.  It matches \<^verbatim>\<open>php and mysql tutorial\<close> by its wildcard
  alternative, whose normalised segments \<^verbatim>\<open>php\<close> and \<^verbatim>\<open>mysql\<close> both occur in the text,
  and its priority is 9, the length of \<^verbatim>\<open>PHP*MySQL\<close>, not 3.
\<close>

theorem scenario_php_mysql:
  "alternatives (Pattern ''PHP*MySQL|PHP'') = [''PHP*MySQL'', ''PHP''] \<and>
   wildcard_tokens ''PHP*MySQL'' = [''php'', ''mysql''] \<and>
   sublist ''php'' ''php and mysql tutorial'' \<and>
   sublist ''mysql'' ''php and mysql tutorial'' \<and>
   matches_alts re [''PHP*MySQL''] ''php and mysql tutorial'' \<and>
   matches re (Pattern ''PHP*MySQL|PHP'') ''php and mysql tutorial'' \<and>
   priority (Pattern ''PHP*MySQL|PHP'') = 9 \<and>
   length ''PHP*MySQL'' = 9 \<and> length ''PHP'' = 3"
proof -
  have m: "matches_alts re (''PHP*MySQL'' # alts) ''php and mysql tutorial''" for alts
    using php_sub by (simp add: not_regex_php php_tokens)
  show ?thesis
    using m [of "[]"] m [of "[''PHP'']"] php_sub
    by (simp add: php_pattern php_tokens matches_def)
qed

theorem scenario_php_mysql_witness:
  "matches example_engine (Pattern ''PHP*MySQL|PHP'') ''php and mysql tutorial'' \<and>
   priority (Pattern ''PHP*MySQL|PHP'') = 9"
  using scenario_php_mysql [of example_engine] by simp

lemma star_pattern: "Pattern ''*'' = \<lparr> raw = ''*'', alternatives = [''*''], priority = 1 \<rparr>"
  by code_simp

lemma star_tokens: "wildcard_tokens ''*'' = []"
  by code_simp

text \<open>
  C10.  The pattern of the rule text \<^verbatim>\<open>*\<close> is one wildcard alternative without a segment;
  it matches every text.
\<close>

theorem star_matches_everything: "matches re (Pattern ''*'') text"
proof -
  have "\<not> prefix ''regex:'' ''*''" by code_simp
  then show ?thesis by (simp add: star_pattern star_tokens matches_def)
qed

theorem star_matches_everything_witness:
  "matches example_engine (Pattern ''*'') ''python basics''"
  by (rule star_matches_everything)




section \<open>Matching: the claims\<close>

lemma match_size: "x \<in> set (match_file_recursively re fp g) \<Longrightarrow> size x \<le> size g"
proof (induction re fp g arbitrary: x rule: match_file_recursively.induct)
  case (1 re fp n inc exc subs)
  let ?ms = "concat (map (match_file_recursively re fp) subs)"
  from "1.prems" consider "x \<in> set ?ms" | "x = Group n inc exc subs"
    by (auto simp: Let_def split: if_splits)
  then show ?case
  proof cases
    case 1
    then obtain s where s: "s \<in> set subs" and x: "x \<in> set (match_file_recursively re fp s)"
      by auto
    from "1.IH" [OF s x] have "size x \<le> size s" .
    also from s have "size s < size_list size subs" by (rule size_list_member)
    finally show ?thesis by simp
  next
    case 2
    then show ?thesis by simp
  qed
qed

lemma match_sub_not_self:
  "g \<notin> set (concat (map (match_file_recursively re fp) (subgroups g)))"
proof
  assume "g \<in> set (concat (map (match_file_recursively re fp) (subgroups g)))"
  then obtain s where s: "s \<in> set (subgroups g)" and x: "g \<in> set (match_file_recursively re fp s)"
    by auto
  from x have "size g \<le> size s" by (rule match_size)
  moreover from s have "size s < size g" by (cases g) (auto dest: size_list_member [where f = size])
  ultimately show False by simp
qed

lemma match_unfold:
  "match_file_recursively re fp g =
     (let ms = concat (map (match_file_recursively re fp) (subgroups g))
      in if ms = [] \<and> file_matches_group_name re fp g then ms @ [g] else ms)"
  by (cases g) (auto simp: Let_def)

text \<open>
  C1.  For every file and every group: when the descent into the subgroups (depth first,
  from left to right) yields at least one match, \<open>match_file_recursively\<close> returns exactly
  the matches of the descendants, and the group itself is not among them, whatever its own
  patterns say of the file.
\<close>

theorem descendant_precedence:
  assumes "concat (map (match_file_recursively re file_path) (subgroups g)) \<noteq> []"
  shows "match_file_recursively re file_path g =
           concat (map (match_file_recursively re file_path) (subgroups g)) \<and>
         g \<notin> set (match_file_recursively re file_path g)"
proof -
  from assms have eq: "match_file_recursively re file_path g =
      concat (map (match_file_recursively re file_path) (subgroups g))"
    by (subst match_unfold) (simp add: Let_def)
  with match_sub_not_self [of g re file_path] show ?thesis by simp
qed

theorem descendant_precedence_witness:
  "concat (map (match_file_recursively example_engine ''/books/Python_Basics.pdf'') (subgroups ex_it)) \<noteq> [] \<and>
   file_matches_group_name example_engine ''/books/Python_Basics.pdf'' ex_it \<and>
   match_file_recursively example_engine ''/books/Python_Basics.pdf'' ex_it = [ex_python] \<and>
   ex_it \<notin> set (match_file_recursively example_engine ''/books/Python_Basics.pdf'' ex_it)"
proof -
  have sub: "concat (map (match_file_recursively example_engine ''/books/Python_Basics.pdf'') (subgroups ex_it)) = [ex_python]"
    by code_simp
  then have h: "concat (map (match_file_recursively example_engine ''/books/Python_Basics.pdf'') (subgroups ex_it)) \<noteq> []"
    by simp
  have own: "file_matches_group_name example_engine ''/books/Python_Basics.pdf'' ex_it"
    by code_simp
  from descendant_precedence [OF h]
  have r: "match_file_recursively example_engine ''/books/Python_Basics.pdf'' ex_it =
      concat (map (match_file_recursively example_engine ''/books/Python_Basics.pdf'') (subgroups ex_it))"
    and n: "ex_it \<notin> set (match_file_recursively example_engine ''/books/Python_Basics.pdf'' ex_it)"
    by blast+
  from r sub have "match_file_recursively example_engine ''/books/Python_Basics.pdf'' ex_it = [ex_python]"
    by (rule trans)
  with h own n show ?thesis by blast
qed

text \<open>
  C3.  For every file and every group without a matching descendant: the group is in the
  result if and only if it has an include pattern, some include pattern matches the
  normalised file name, and no exclude pattern matches it; the result is then the group
  alone, and is empty otherwise.  Hence a group of which both an include and an exclude
  pattern match the file is not in the result.
\<close>

theorem direct_match_iff:
  assumes "concat (map (match_file_recursively re file_path) (subgroups g)) = []"
  shows "(g \<in> set (match_file_recursively re file_path g)) =
           (include_patterns g \<noteq> [] \<and>
            (\<exists>p \<in> set (include_patterns g). matches re p (normalized_name file_path)) \<and>
            \<not> (\<exists>p \<in> set (exclude_patterns g). matches re p (normalized_name file_path))) \<and>
         match_file_recursively re file_path g =
           (if g \<in> set (match_file_recursively re file_path g) then [g] else []) \<and>
         ((\<exists>p \<in> set (include_patterns g). matches re p (normalized_name file_path)) \<and>
          (\<exists>p \<in> set (exclude_patterns g). matches re p (normalized_name file_path)) \<longrightarrow>
            g \<notin> set (match_file_recursively re file_path g))"
proof -
  from assms have eq: "match_file_recursively re file_path g =
      (if file_matches_group_name re file_path g then [g] else [])"
    by (subst match_unfold) (simp add: Let_def)
  show ?thesis unfolding eq by (auto simp: file_matches_group_name_def Let_def)
qed

theorem direct_match_iff_witness:
  "concat (map (match_file_recursively example_engine ''Office_on_Linux.epub'') (subgroups ex_office)) = [] \<and>
   (\<exists>p \<in> set (include_patterns ex_office). matches example_engine p (normalized_name ''Office_on_Linux.epub'')) \<and>
   (\<exists>p \<in> set (exclude_patterns ex_office). matches example_engine p (normalized_name ''Office_on_Linux.epub'')) \<and>
   ex_office \<notin> set (match_file_recursively example_engine ''Office_on_Linux.epub'' ex_office) \<and>
   match_file_recursively example_engine ''Office_on_Linux.epub'' ex_office = []"
proof -
  have h: "concat (map (match_file_recursively example_engine ''Office_on_Linux.epub'') (subgroups ex_office)) = []"
    by code_simp
  have i: "\<exists>p \<in> set (include_patterns ex_office). matches example_engine p (normalized_name ''Office_on_Linux.epub'')"
    by code_simp
  have e: "\<exists>p \<in> set (exclude_patterns ex_office). matches example_engine p (normalized_name ''Office_on_Linux.epub'')"
    by code_simp
  from direct_match_iff [OF h] i e
  have n: "ex_office \<notin> set (match_file_recursively example_engine ''Office_on_Linux.epub'' ex_office)"
    by blast
  from direct_match_iff [OF h]
  have "match_file_recursively example_engine ''Office_on_Linux.epub'' ex_office =
      (if ex_office \<in> set (match_file_recursively example_engine ''Office_on_Linux.epub'' ex_office)
       then [ex_office] else [])" by blast
  with n have "match_file_recursively example_engine ''Office_on_Linux.epub'' ex_office = []"
    by metis
  with h i e n show ?thesis by blast
qed

lemma match_has_include:
  "x \<in> set (match_file_recursively re fp g) \<Longrightarrow> file_matches_group_name re fp x"
proof (induction re fp g arbitrary: x rule: match_file_recursively.induct)
  case (1 re fp n inc exc subs)
  then show ?case by (auto simp: Let_def split: if_splits)
qed

text \<open>
  C5.  For every file and every forest, every group of the match result has an include
  pattern: a group whose list of include patterns is empty is never in a result, whatever
  its name, its exclude patterns and its place in the tree.
\<close>

theorem empty_include_never_matches:
  "\<forall>g \<in> set (match_forest re file_path top_groups). include_patterns g \<noteq> []"
proof
  fix g assume "g \<in> set (match_forest re file_path top_groups)"
  then obtain t where "g \<in> set (match_file_recursively re file_path t)"
    by (auto simp: match_forest_def)
  then have "file_matches_group_name re file_path g" by (rule match_has_include)
  then show "include_patterns g \<noteq> []" by (auto simp: file_matches_group_name_def)
qed

theorem empty_include_never_matches_witness:
  "match_forest example_engine ''kids_encyclopedia.pdf'' [ex_kids, ex_science] = [ex_kids, ex_biology] \<and>
   include_patterns ex_science = [] \<and>
   include_patterns ex_kids \<noteq> [] \<and> include_patterns ex_biology \<noteq> []"
proof -
  have m: "match_forest example_engine ''kids_encyclopedia.pdf'' [ex_kids, ex_science] = [ex_kids, ex_biology]"
    by code_simp
  have s: "include_patterns ex_science = []" by (simp add: ex_science_def)
  from empty_include_never_matches [of example_engine "''kids_encyclopedia.pdf''" "[ex_kids, ex_science]"]
    m s show ?thesis by simp
qed

lemma file_matches_cong:
  "normalized_name p1 = normalized_name p2 \<Longrightarrow>
   file_matches_group_name re p1 g = file_matches_group_name re p2 g"
  by (simp add: file_matches_group_name_def)

text \<open>
  C9.  The matches depend on the path only through the base name without its extension:
  two paths with the same base name without extension have the same match list, for every
  group tree.
\<close>

theorem match_depends_on_base_name:
  assumes "fst (splitext (basename p1)) = fst (splitext (basename p2))"
  shows "match_file_recursively re p1 g = match_file_recursively re p2 g"
proof -
  from assms have n: "normalized_name p1 = normalized_name p2"
    by (simp add: normalized_name_def)
  show ?thesis
  proof (induction g)
    case (Group n' inc exc subs)
    then have m: "map (match_file_recursively re p1) subs = map (match_file_recursively re p2) subs"
      by simp
    show ?case
      by (simp only: match_file_recursively.simps m file_matches_cong [OF n])
  qed
qed

theorem match_depends_on_base_name_witness:
  "fst (splitext (basename ''/books/a/Python_Basics.pdf'')) = fst (splitext (basename ''other/Python_Basics.epub'')) \<and>
   match_file_recursively example_engine ''/books/a/Python_Basics.pdf'' ex_it =
   match_file_recursively example_engine ''other/Python_Basics.epub'' ex_it"
proof -
  have h: "fst (splitext (basename ''/books/a/Python_Basics.pdf'')) = fst (splitext (basename ''other/Python_Basics.epub''))"
    by code_simp
  from match_depends_on_base_name [OF h] h show ?thesis by simp
qed

section \<open>Placement: the claims\<close>

lemma placement_key_eq: "(placement_key g = - int k) = (group_priority g = k)"
  by (auto simp: placement_key_def)

lemma plan_sorted_nonempty:
  assumes "ms \<noteq> []"
  obtains primary secondaries where "sort_key placement_key ms = primary # secondaries"
proof -
  have "length (sort_key placement_key ms) = length ms" by simp
  with assms have "sort_key placement_key ms \<noteq> []" by (metis length_0_conv)
  then show ?thesis using that by (cases "sort_key placement_key ms") auto
qed

lemma plan_by_group_priority:
  "ms \<noteq> [] \<Longrightarrow>
     \<exists>primary secondaries.
        plan ms = Inr (Some (primary, secondaries)) \<and>
        sorted_wrt (\<lambda>a b. group_priority b \<le> group_priority a) (primary # secondaries) \<and>
        (\<forall>k. filter (\<lambda>g. group_priority g = k) (primary # secondaries) =
              filter (\<lambda>g. group_priority g = k) ms) \<and>
        primary = hd (filter (\<lambda>g. group_priority g = Max (group_priority ` set ms)) ms)"
proof -
  assume ne: "ms \<noteq> []"
  then obtain p ss where xs: "sort_key placement_key ms = p # ss"
    by (rule plan_sorted_nonempty)
  let ?xs = "p # ss"
  have pl: "plan ms = Inr (Some (p, ss))" using ne xs by (simp add: plan_def)
  have "sorted (map placement_key ?xs)" unfolding xs [symmetric] by (rule sorted_sort_key)
  then have "sorted_wrt (\<lambda>a b. placement_key a \<le> placement_key b) ?xs"
    by (simp only: sorted_map)
  then have srt: "sorted_wrt (\<lambda>a b. group_priority b \<le> group_priority a) ?xs"
    by (rule sorted_wrt_mono_rel [rotated]) (simp add: placement_key_def)
  have stable: "filter (\<lambda>g. group_priority g = k) ?xs = filter (\<lambda>g. group_priority g = k) ms" for k
    using sort_key_stable [of placement_key "- int k" ms]
    unfolding xs placement_key_eq .
  have set_eq: "set ?xs = set ms" unfolding xs [symmetric] by simp
  let ?M = "Max (group_priority ` set ms)"
  have "\<forall>g \<in> set ms. group_priority g \<le> group_priority p"
    using srt set_eq by auto
  moreover have "p \<in> set ms" using set_eq by auto
  ultimately have "group_priority p = ?M"
    by (intro Max_eqI [symmetric]) auto
  then have "hd (filter (\<lambda>g. group_priority g = ?M) ?xs) = p" by simp
  with stable [of ?M] have prim: "p = hd (filter (\<lambda>g. group_priority g = ?M) ms)" by simp
  from pl srt stable prim show ?thesis by blast
qed

text \<open>The priority of a group is the greatest priority of its include patterns, and 0
  when it has none.\<close>

lemma py_max_Max: "py_max xs 0 = (if xs = [] then 0 else Max (set xs))"
proof (cases xs)
  case Nil
  then show ?thesis by simp
next
  case (Cons a list)
  have "fold max list a = Max (set (a # list))" by (rule Max.set_eq_fold [symmetric])
  with Cons show ?thesis by simp
qed

lemma group_priority_Max:
  "group_priority g =
     (if include_patterns g = [] then 0 else Max (priority ` set (include_patterns g)))"
  by (simp add: group_priority_def py_max_Max)

text \<open>
  C2.  Without a match the file is skipped: no placement and no error.  Otherwise the
  placement is the match list sorted by descending priority, where the priority of a group
  is the maximum of the priorities of its include patterns (0 without include patterns);
  the head is primary and the rest, in sorted order, secondary.  Groups of equal priority
  keep their original order, so the primary group is the first group of the original order
  whose priority is maximal.
\<close>

theorem plan_stable_by_priority:
  fixes ms :: "group list"
  defines "prio \<equiv> \<lambda>g. if include_patterns g = [] then 0
                       else Max (priority ` set (include_patterns g))"
  shows "plan [] = Inr None \<and>
   (ms \<noteq> [] \<longrightarrow>
     (\<exists>primary secondaries.
        plan ms = Inr (Some (primary, secondaries)) \<and>
        sorted_wrt (\<lambda>a b. prio b \<le> prio a) (primary # secondaries) \<and>
        (\<forall>k. filter (\<lambda>g. prio g = k) (primary # secondaries) =
              filter (\<lambda>g. prio g = k) ms) \<and>
        primary = hd (filter (\<lambda>g. prio g = Max (prio ` set ms)) ms)))"
proof -
  have prio: "prio = group_priority"
    unfolding prio_def by (rule ext) (simp only: group_priority_Max)
  have "plan [] = Inr None" by (simp add: plan_def)
  then show ?thesis unfolding prio using plan_by_group_priority [of ms] by blast
qed

theorem plan_stable_by_priority_witness:
  "[ex_php, ex_js, ex_ts] \<noteq> [] \<and>
   map priority (include_patterns ex_php) = [9, 3] \<and>
   map priority (include_patterns ex_js) = [2, 10] \<and>
   map priority (include_patterns ex_ts) = [10, 2] \<and>
   plan [ex_php, ex_js, ex_ts] = Inr (Some (ex_js, [ex_ts, ex_php]))"
proof -
  have ne: "[ex_php, ex_js, ex_ts] \<noteq> []" by simp
  have p1: "map priority (include_patterns ex_php) = [9, 3]" by code_simp
  have p2: "map priority (include_patterns ex_js) = [2, 10]" by code_simp
  have p3: "map priority (include_patterns ex_ts) = [10, 2]" by code_simp
  have pl: "plan [ex_php, ex_js, ex_ts] = Inr (Some (ex_js, [ex_ts, ex_php]))"
    by code_simp
  from plan_stable_by_priority [of "[ex_php, ex_js, ex_ts]"] ne p1 p2 p3 pl
  show ?thesis by simp
qed

section \<open>Construction of the forest\<close>






end
